theory Spec2Isabelle
  imports Main
begin

section \<open>The service worker of routine-types: data model\<close>

text \<open>
  The worker (src/unnamed/part_000, lines 1-293) answers fetch events through one of three
  caching strategies, sweeps superseded cache namespaces on activation and precaches URL lists
  on command. The platform objects it talks to (CacheStorage, Cache, fetch, promises, clients)
  are not code of the repository; they appear here as explicit state and as oracles:
  \<^item> the network is a function from a request key to what \<open>fetch\<close> has done with it:
    rejected, fulfilled with a response, or not settled;
  \<^item> CacheStorage is an association list from namespace names to caches, in creation order;
  \<^item> a cache is a finite map from request keys to response snapshots; \<open>cache.put\<close>
    overwrites an entry when the platform accepts the pair and stores nothing otherwise;
  \<^item> a promise is represented by its state: fulfilled with a value, rejected with a message,
    or pending.
\<close>

subsection \<open>Constants\<close>

definition CACHE_VERSION :: string where
  "CACHE_VERSION = ''v1.0.0''"

definition CACHE_NAME :: string where
  "CACHE_NAME = ''ts-snippets-'' @ CACHE_VERSION"

definition CACHE_FIRST :: string where
  "CACHE_FIRST = ''cache-first''"

definition NETWORK_FIRST :: string where
  "NETWORK_FIRST = ''network-first''"

definition STALE_WHILE_REVALIDATE :: string where
  "STALE_WHILE_REVALIDATE = ''stale-while-revalidate''"

text \<open>The table \<open>RESOURCE_STRATEGIES\<close>, one constant per property.\<close>

definition RESOURCE_STRATEGIES_html :: string where
  "RESOURCE_STRATEGIES_html = NETWORK_FIRST"

definition RESOURCE_STRATEGIES_styles :: string where
  "RESOURCE_STRATEGIES_styles = STALE_WHILE_REVALIDATE"

definition RESOURCE_STRATEGIES_scripts :: string where
  "RESOURCE_STRATEGIES_scripts = STALE_WHILE_REVALIDATE"

definition RESOURCE_STRATEGIES_images :: string where
  "RESOURCE_STRATEGIES_images = CACHE_FIRST"

subsection \<open>Requests and responses\<close>

text \<open>
  A request as the worker reads it: its method and URL (together the cache key), the
  \<open>pathname\<close> that \<open>new URL(request.url)\<close> yields, and the value of
  \<open>request.headers.get('accept')\<close>, \<open>None\<close> when the header is absent.
\<close>

record request =
  request_method :: string
  url :: string
  pathname :: string
  accept :: "string option"

record response =
  status :: nat
  statusText :: string
  headers :: "(string \<times> string) list"
  body :: string

text \<open>\<open>response.ok\<close>: the status is in the range 200 to 299.\<close>

definition ok :: "response \<Rightarrow> bool" where
  "ok r = (200 \<le> status r \<and> status r \<le> 299)"

type_synonym request_key = "string \<times> string"

definition key_of :: "request \<Rightarrow> request_key" where
  "key_of request = (request_method request, url request)"

subsection \<open>String operations of the language\<close>

text \<open>\<open>s.split(sep)\<close> for a one-character separator: never the empty array.\<close>

fun js_split :: "char \<Rightarrow> string \<Rightarrow> string list" where
  "js_split sep [] = [[]]"
| "js_split sep (c # cs) =
     (if c = sep then [] # js_split sep cs
      else (case js_split sep cs of
              [] \<Rightarrow> [[c]]
            | piece # pieces \<Rightarrow> (c # piece) # pieces))"

text \<open>\<open>array.pop()\<close> read for its value: \<open>undefined\<close> on the empty array.\<close>

definition js_pop :: "'a list \<Rightarrow> 'a option" where
  "js_pop xs = (if xs = [] then None else Some (last xs))"

fun starts_with :: "string \<Rightarrow> string \<Rightarrow> bool" where
  "starts_with s [] = True"
| "starts_with [] (p # ps) = False"
| "starts_with (c # cs) (p # ps) = (c = p \<and> starts_with cs ps)"

text \<open>\<open>s.includes(sub)\<close>: \<open>sub\<close> occurs in \<open>s\<close> as a contiguous substring.\<close>

fun js_includes :: "string \<Rightarrow> string \<Rightarrow> bool" where
  "js_includes [] sub = (sub = [])"
| "js_includes (c # cs) sub = (starts_with (c # cs) sub \<or> js_includes cs sub)"

section \<open>Strategy classifier\<close>

text \<open>\<open>url.pathname.split('.').pop()\<close>\<close>

definition extension :: "request \<Rightarrow> string option" where
  "extension request = js_pop (js_split (CHR ''.'') (pathname request))"

text \<open>\<open>request.headers.get('accept')?.includes('text/html')\<close>, as a truth value.\<close>

definition accept_includes_html :: "request \<Rightarrow> bool" where
  "accept_includes_html request =
     (case accept request of None \<Rightarrow> False | Some a \<Rightarrow> js_includes a ''text/html'')"

definition image_extensions :: "string list" where
  "image_extensions = [''jpg'', ''jpeg'', ''png'', ''gif'', ''webp'', ''svg'']"

definition getStrategyForRequest :: "request \<Rightarrow> string" where
  "getStrategyForRequest request =
     (let ext = extension request in
      if accept_includes_html request \<or> ext = Some ''html'' then RESOURCE_STRATEGIES_html
      else if ext = Some ''css'' then RESOURCE_STRATEGIES_styles
      else if ext = Some ''js'' then RESOURCE_STRATEGIES_scripts
      else if ext \<in> set (map Some image_extensions) then RESOURCE_STRATEGIES_images
      else NETWORK_FIRST)"

section \<open>Platform state\<close>

text \<open>
  A promise as it is observed: fulfilled with a value, rejected with the message of its error,
  or still pending.
\<close>

datatype 'a promise = Fulfilled 'a | Rejected string | Pending

fun map_promise :: "('a \<Rightarrow> 'b) \<Rightarrow> 'a promise \<Rightarrow> 'b promise" where
  "map_promise f (Fulfilled v) = Fulfilled (f v)"
| "map_promise f (Rejected e) = Rejected e"
| "map_promise f Pending = Pending"

text \<open>
  \<open>Promise.all\<close>: rejected when a member is rejected, pending while a member is pending
  and none is rejected, fulfilled with all values otherwise. Of several rejected members the
  model carries the message of the first in list order, the platform that of the first in
  time.
\<close>

fun Promise_all :: "'a promise list \<Rightarrow> 'a list promise" where
  "Promise_all [] = Fulfilled []"
| "Promise_all (Rejected e # ps) = Rejected e"
| "Promise_all (Fulfilled v # ps) =
     (case Promise_all ps of
        Rejected e \<Rightarrow> Rejected e
      | Pending \<Rightarrow> Pending
      | Fulfilled vs \<Rightarrow> Fulfilled (v # vs))"
| "Promise_all (Pending # ps) =
     (case Promise_all ps of
        Rejected e \<Rightarrow> Rejected e
      | Pending \<Rightarrow> Pending
      | Fulfilled vs \<Rightarrow> Pending)"

text \<open>
  What \<open>fetch\<close> has done when the worker is observed: rejected (no connectivity),
  fulfilled with a response of any status, or not settled (not yet, or never).
\<close>

datatype fetch_outcome = NetworkError string | Fetched response | Unsettled

type_synonym network = "request_key \<Rightarrow> fetch_outcome"

type_synonym cache = "request_key \<rightharpoonup> response"

type_synonym cache_storage = "(string \<times> cache) list"

text \<open>The message the worker posts on \<open>event.ports[0]\<close>.\<close>

record reply =
  success :: bool
  error :: "string option"

record sw_state =
  caches :: cache_storage
  net_calls :: nat
  claimed :: bool
  skipWaiting_calls :: nat
  posted :: "reply list"
  console :: "string list"

definition console_log :: "string \<Rightarrow> sw_state \<Rightarrow> sw_state" where
  "console_log msg s = s\<lparr>console := console s @ [msg]\<rparr>"

subsection \<open>CacheStorage and Cache\<close>

definition caches_has :: "cache_storage \<Rightarrow> string \<Rightarrow> bool" where
  "caches_has st n = (n \<in> set (map fst st))"

definition caches_keys :: "cache_storage \<Rightarrow> string list" where
  "caches_keys st = map fst st"

text \<open>\<open>caches.open(name)\<close> creates the namespace, empty, when it does not exist.\<close>

definition caches_open :: "string \<Rightarrow> cache_storage \<Rightarrow> cache_storage" where
  "caches_open n st = (if caches_has st n then st else st @ [(n, Map.empty)])"

text \<open>
  \<open>caches.delete(name)\<close>. The oracle \<open>delete_error\<close> says for which namespaces the
  platform fails the deletion, and with which error; otherwise the promise is fulfilled with
  whether the namespace existed.
\<close>

definition caches_delete ::
  "(string \<Rightarrow> string option) \<Rightarrow> string \<Rightarrow> cache_storage \<Rightarrow> bool promise \<times> cache_storage" where
  "caches_delete delete_error n st =
     (case delete_error n of
        Some e \<Rightarrow> (Rejected e, st)
      | None \<Rightarrow> (Fulfilled (caches_has st n), filter (\<lambda>(m, c). m \<noteq> n) st))"

text \<open>\<open>cache.match(request)\<close> on the cache of namespace \<open>n\<close>.\<close>

definition cache_match :: "cache_storage \<Rightarrow> string \<Rightarrow> request_key \<Rightarrow> response option" where
  "cache_match st n k = (case map_of st n of None \<Rightarrow> None | Some c \<Rightarrow> c k)"

text \<open>Header names are compared without regard to ASCII case.\<close>

definition ascii_lower :: "char \<Rightarrow> char" where
  "ascii_lower c =
     (case map_of (zip ''ABCDEFGHIJKLMNOPQRSTUVWXYZ'' ''abcdefghijklmnopqrstuvwxyz'') c of
        None \<Rightarrow> c
      | Some l \<Rightarrow> l)"

definition is_http_space :: "char \<Rightarrow> bool" where
  "is_http_space c = (c = CHR '' '' \<or> c = CHR 0x09)"

definition trim :: "string \<Rightarrow> string" where
  "trim v = rev (dropWhile is_http_space (rev (dropWhile is_http_space v)))"

text \<open>The values of a list-valued header: every header of that name, split at commas.\<close>

definition header_values :: "string \<Rightarrow> response \<Rightarrow> string list" where
  "header_values name r =
     concat (map (\<lambda>(n, v). if map ascii_lower n = name
                             then map trim (js_split (CHR '','') v) else [])
               (headers r))"

definition vary_star :: "response \<Rightarrow> bool" where
  "vary_star r = (''*'' \<in> set (header_values ''vary'' r))"

text \<open>
  The pairs the platform's \<open>Cache.put\<close> accepts: the request's method is GET, the
  status is not 206 and no \<open>Vary\<close> header of the response lists \<open>*\<close>. (The URL must
  also be http or https, which holds of every request a fetch event carries.)
\<close>

definition put_accepts :: "request_key \<Rightarrow> response \<Rightarrow> bool" where
  "put_accepts k v = (fst k = ''GET'' \<and> status v \<noteq> 206 \<and> \<not> vary_star v)"

text \<open>
  \<open>cache.put(request, response)\<close> on the cache of namespace \<open>n\<close>. An accepted pair
  overwrites the entry of its key. For any other pair the platform rejects the promise and
  stores nothing; the worker neither awaits nor catches that promise, so nothing else happens.
\<close>

definition cache_put ::
  "string \<Rightarrow> request_key \<Rightarrow> response \<Rightarrow> cache_storage \<Rightarrow> cache_storage" where
  "cache_put n k v st =
     (if put_accepts k v
      then map (\<lambda>(m, c). if m = n then (m, c(k \<mapsto> v)) else (m, c)) st
      else st)"

text \<open>\<open>fetch(request)\<close>: one more network call, with what the network does with it.\<close>

definition fetch :: "network \<Rightarrow> request \<Rightarrow> sw_state \<Rightarrow> fetch_outcome \<times> sw_state" where
  "fetch net request s = (net (key_of request), s\<lparr>net_calls := Suc (net_calls s)\<rparr>)"

section \<open>Strategy executors\<close>

text \<open>
  Each executor returns the state of its promise (\<open>Fulfilled None\<close> is fulfilled with
  \<open>undefined\<close>, \<open>Pending\<close> is an executor still waiting for its fetch) and the state
  of the worker once everything that can run has run, its own cache write included, which
  the source does not await.
\<close>

text \<open>
  \<open>new Response(text, init)\<close> without a content type in \<open>init\<close>: the platform
  adds the one of a text body.
\<close>

definition offline_plain :: response where
  "offline_plain =
     \<lparr>status = 503, statusText = ''Service Unavailable'',
      headers = [(''Content-Type'', ''text/plain;charset=UTF-8'')],
      body = ''Offline - resource not available''\<rparr>"

definition offline_html :: response where
  "offline_html =
     \<lparr>status = 503, statusText = ''Service Unavailable'',
      headers = [(''Content-Type'', ''text/html'')],
      body = ''Offline - resource not available''\<rparr>"

definition cacheFirst ::
  "network \<Rightarrow> request \<Rightarrow> sw_state \<Rightarrow> response option promise \<times> sw_state" where
  "cacheFirst net request s =
     (let s1 = s\<lparr>caches := caches_open CACHE_NAME (caches s)\<rparr>;
          cachedResponse = cache_match (caches s1) CACHE_NAME (key_of request)
      in case cachedResponse of
           Some cached \<Rightarrow> (Fulfilled (Some cached), s1)
         | None \<Rightarrow>
             (case fetch net request s1 of
                (Fetched networkResponse, s2) \<Rightarrow>
                  (Fulfilled (Some networkResponse),
                   if ok networkResponse
                   then s2\<lparr>caches := cache_put CACHE_NAME (key_of request) networkResponse (caches s2)\<rparr>
                   else s2)
              | (NetworkError e, s2) \<Rightarrow>
                  (Fulfilled (Some offline_plain), console_log ''[SW] Cache first failed:'' s2)
              | (Unsettled, s2) \<Rightarrow> (Pending, s2)))"

definition networkFirst ::
  "network \<Rightarrow> request \<Rightarrow> sw_state \<Rightarrow> response option promise \<times> sw_state" where
  "networkFirst net request s =
     (let s1 = s\<lparr>caches := caches_open CACHE_NAME (caches s)\<rparr>
      in case fetch net request s1 of
           (Fetched networkResponse, s2) \<Rightarrow>
             (Fulfilled (Some networkResponse),
              if ok networkResponse
              then s2\<lparr>caches := cache_put CACHE_NAME (key_of request) networkResponse (caches s2)\<rparr>
              else s2)
         | (NetworkError e, s2) \<Rightarrow>
             (let s3 = console_log ''[SW] Network failed, trying cache:'' s2;
                  cachedResponse = cache_match (caches s3) CACHE_NAME (key_of request)
              in case cachedResponse of
                   Some cached \<Rightarrow> (Fulfilled (Some cached), s3)
                 | None \<Rightarrow> (Fulfilled (Some offline_html), s3))
         | (Unsettled, s2) \<Rightarrow> (Pending, s2))"

text \<open>
  The chain \<open>fetch(request).then(...).catch(...)\<close> of \<open>staleWhileRevalidate\<close>: the
  state of \<open>fetchPromise\<close> and of the worker, given what the fetch has done. The handlers
  run when the fetch settles; until then the promise is pending and nothing is written. The
  \<open>catch\<close> handler returns nothing, so a failed fetch fulfils the promise with
  \<open>undefined\<close>.
\<close>

definition fetchPromise ::
  "fetch_outcome \<Rightarrow> request \<Rightarrow> sw_state \<Rightarrow> response option promise \<times> sw_state" where
  "fetchPromise settled request s =
     (case settled of
        Fetched networkResponse \<Rightarrow>
          (Fulfilled (Some networkResponse),
           if ok networkResponse
           then s\<lparr>caches := cache_put CACHE_NAME (key_of request) networkResponse (caches s)\<rparr>
           else s)
      | NetworkError e \<Rightarrow>
          (Fulfilled None, console_log ''[SW] Background fetch failed:'' s)
      | Unsettled \<Rightarrow> (Pending, s))"

text \<open>
  \<open>cachedResponse || fetchPromise\<close>: a cached response is the answer whatever state
  \<open>fetchPromise\<close> is in, pending included; without one the answer is \<open>fetchPromise\<close>
  itself.
\<close>

definition staleWhileRevalidate ::
  "network \<Rightarrow> request \<Rightarrow> sw_state \<Rightarrow> response option promise \<times> sw_state" where
  "staleWhileRevalidate net request s =
     (let s1 = s\<lparr>caches := caches_open CACHE_NAME (caches s)\<rparr>;
          cachedResponse = cache_match (caches s1) CACHE_NAME (key_of request);
          (settled, s2) = fetch net request s1;
          (fetched, s3) = fetchPromise settled request s2
      in case cachedResponse of
           Some cached \<Rightarrow> (Fulfilled (Some cached), s3)
         | None \<Rightarrow> (fetched, s3))"

definition handleRequest ::
  "network \<Rightarrow> request \<Rightarrow> string \<Rightarrow> sw_state \<Rightarrow> response option promise \<times> sw_state" where
  "handleRequest net request strategy s =
     (if strategy = CACHE_FIRST then cacheFirst net request s
      else if strategy = NETWORK_FIRST then networkFirst net request s
      else if strategy = STALE_WHILE_REVALIDATE then staleWhileRevalidate net request s
      else (case fetch net request s of
              (Fetched networkResponse, s1) \<Rightarrow> (Fulfilled (Some networkResponse), s1)
            | (NetworkError e, s1) \<Rightarrow> (Rejected e, s1)
            | (Unsettled, s1) \<Rightarrow> (Pending, s1)))"

section \<open>Activation\<close>

text \<open>
  \<open>cacheNames.map(...)\<close> of the activate listener: the callback runs for every name, in
  order, and starts a deletion for every name other than \<open>CACHE_NAME\<close>; the list holds
  what each returned promise settles with (\<open>Fulfilled None\<close> for the callback that returns
  nothing).
\<close>

fun delete_old_caches ::
  "(string \<Rightarrow> string option) \<Rightarrow> string list \<Rightarrow> sw_state \<Rightarrow> bool option promise list \<times> sw_state" where
  "delete_old_caches delete_error [] s = ([], s)"
| "delete_old_caches delete_error (cacheName # rest) s =
     (if cacheName \<noteq> CACHE_NAME then
        (let s1 = console_log ''[SW] Deleting old cache:'' s;
             (p, st) = caches_delete delete_error cacheName (caches s1);
             (ps, s2) = delete_old_caches delete_error rest (s1\<lparr>caches := st\<rparr>)
         in (map_promise Some p # ps, s2))
      else
        (let (ps, s2) = delete_old_caches delete_error rest s
         in (Fulfilled None # ps, s2)))"

text \<open>
  The promise handed to \<open>event.waitUntil\<close>. The second \<open>then\<close> runs only when
  \<open>Promise.all\<close> is fulfilled; a rejection passes through to the result.
\<close>

definition activate ::
  "(string \<Rightarrow> string option) \<Rightarrow> sw_state \<Rightarrow> unit promise \<times> sw_state" where
  "activate delete_error s =
     (let s0 = console_log ''[SW] Activating service worker...'' s;
          cacheNames = caches_keys (caches s0);
          (ps, s1) = delete_old_caches delete_error cacheNames s0
      in case Promise_all ps of
           Rejected e \<Rightarrow> (Rejected e, s1)
         | Pending \<Rightarrow> (Pending, s1)
         | Fulfilled vs \<Rightarrow>
             (Fulfilled (), (console_log ''[SW] Activation complete'' s1)\<lparr>claimed := True\<rparr>))"

section \<open>Control channel\<close>











section \<open>Sample inputs\<close>

text \<open>Concrete requests, responses, networks and states, used to run the model.\<close>

definition fresh_state :: sw_state where
  "fresh_state =
     \<lparr>caches = [], net_calls = 0, claimed = False, skipWaiting_calls = 0, posted = [],
      console = []\<rparr>"

definition request_app_js :: request where
  "request_app_js =
     \<lparr>request_method = ''GET'', url = ''https://snippets.example/app.js'', pathname = ''/app.js'',
      accept = Some ''*/*''\<rparr>"

definition request_logo_png :: request where
  "request_logo_png =
     \<lparr>request_method = ''GET'', url = ''https://snippets.example/img/logo.png'',
      pathname = ''/img/logo.png'', accept = Some ''image/webp,*/*''\<rparr>"

definition request_style_upper :: request where
  "request_style_upper =
     \<lparr>request_method = ''GET'', url = ''https://snippets.example/css/SITE.CSS'',
      pathname = ''/css/SITE.CSS'', accept = Some ''text/css,*/*;q=0.1''\<rparr>"

definition request_readme :: request where
  "request_readme =
     \<lparr>request_method = ''GET'', url = ''https://snippets.example/docs/readme'',
      pathname = ''/docs/readme'', accept = None\<rparr>"

definition response_v1 :: response where
  "response_v1 = \<lparr>status = 200, statusText = ''OK'', headers = [], body = ''v1.js''\<rparr>"

definition response_v2 :: response where
  "response_v2 = \<lparr>status = 200, statusText = ''OK'', headers = [], body = ''v2.js''\<rparr>"

definition request_video :: request where
  "request_video =
     \<lparr>request_method = ''GET'', url = ''https://snippets.example/media/intro.mp4'',
      pathname = ''/media/intro.mp4'', accept = Some ''*/*''\<rparr>"

definition request_post :: request where
  "request_post =
     \<lparr>request_method = ''POST'', url = ''https://snippets.example/api/save'',
      pathname = ''/api/save'', accept = Some ''application/json''\<rparr>"

definition response_206 :: response where
  "response_206 =
     \<lparr>status = 206, statusText = ''Partial Content'',
      headers = [(''Content-Range'', ''bytes 0-1023/4096'')], body = ''partial''\<rparr>"

definition response_201 :: response where
  "response_201 = \<lparr>status = 201, statusText = ''Created'', headers = [], body = ''saved''\<rparr>"

definition response_vary_star :: response where
  "response_vary_star =
     \<lparr>status = 200, statusText = ''OK'', headers = [(''Vary'', ''Accept-Encoding, *'')],
      body = ''v3.js''\<rparr>"

definition net_vary_star :: network where
  "net_vary_star k = Fetched response_vary_star"

definition net_206 :: network where
  "net_206 k = Fetched response_206"

definition net_201 :: network where
  "net_201 k = Fetched response_201"

definition net_pending :: network where
  "net_pending k = Unsettled"



definition net_offline :: network where
  "net_offline k = NetworkError ''Failed to fetch''"

definition net_v2 :: network where
  "net_v2 k = Fetched response_v2"

definition net_one_missing :: network where
  "net_one_missing k =
     (if k = (''GET'', ''https://snippets.example/missing.png'')
      then NetworkError ''Failed to fetch''
      else Fetched response_v2)"

definition precache_urls :: "string list" where
  "precache_urls = [''/index.html'', ''/app.js'', ''/missing.png'']"


definition state_with_v1 :: sw_state where
  "state_with_v1 =
     fresh_state\<lparr>caches := [(CACHE_NAME, [key_of request_app_js \<mapsto> response_v1])]\<rparr>"

definition state_only_old :: sw_state where
  "state_only_old = fresh_state\<lparr>caches := [(''ts-snippets-v0.9.0'', Map.empty)]\<rparr>"

definition state_old_caches :: sw_state where
  "state_old_caches =
     fresh_state\<lparr>caches :=
       [(''ts-snippets-v0.8.0'', Map.empty), (''ts-snippets-v0.9.0'', Map.empty),
        (CACHE_NAME, [key_of request_app_js \<mapsto> response_v1])]\<rparr>"

definition delete_ok :: "string \<Rightarrow> string option" where
  "delete_ok n = None"

definition delete_fails_v08 :: "string \<Rightarrow> string option" where
  "delete_fails_v08 n = (if n = ''ts-snippets-v0.8.0'' then Some ''delete failed'' else None)"

text \<open>An upper-case ASCII letter.\<close>

definition is_upper :: "char \<Rightarrow> bool" where
  "is_upper c = (c \<in> set ''ABCDEFGHIJKLMNOPQRSTUVWXYZ'')"

lemmas sample_defs =
  fresh_state_def request_app_js_def request_logo_png_def request_style_upper_def
  request_readme_def response_v1_def response_v2_def net_offline_def net_v2_def
  net_one_missing_def precache_urls_def state_with_v1_def state_only_old_def
  state_old_caches_def delete_ok_def delete_fails_v08_def request_video_def request_post_def
  response_206_def response_201_def net_206_def net_201_def net_pending_def
  response_vary_star_def net_vary_star_def

section \<open>Facts about the platform model\<close>

lemma caches_has_map_of: "caches_has st n \<longleftrightarrow> map_of st n \<noteq> None"
  by (simp add: caches_has_def map_of_eq_None_iff)

lemma cache_put_refused: "\<not> put_accepts k v \<Longrightarrow> cache_put n k v st = st"
  by (simp add: cache_put_def)

lemma map_of_cache_put:
  "map_of (cache_put n k v st) m =
     (case map_of st m of
        None \<Rightarrow> None
      | Some c \<Rightarrow> Some (if m = n \<and> put_accepts k v then c(k \<mapsto> v) else c))"
  by (induction st) (auto simp: cache_put_def split: option.splits)

lemma cache_match_put_same:
  "caches_has st n \<Longrightarrow> put_accepts k v \<Longrightarrow> cache_match (cache_put n k v st) n k = Some v"
  by (auto simp: cache_match_def map_of_cache_put caches_has_map_of split: option.splits)

lemma cache_match_put_other:
  "n' \<noteq> n \<or> k' \<noteq> k \<Longrightarrow> cache_match (cache_put n k v st) n' k' = cache_match st n' k'"
  by (auto simp: cache_match_def map_of_cache_put split: option.splits)


lemma caches_has_open: "caches_has (caches_open n st) n"
  by (simp add: caches_open_def caches_has_def)

lemma cache_match_open: "cache_match (caches_open n st) m k = cache_match st m k"
  by (auto simp: cache_match_def caches_open_def caches_has_map_of map_add_def
        split: option.splits)

lemma cache_match_open_fun: "cache_match (caches_open n st) m = cache_match st m"
  by (rule ext) (rule cache_match_open)

lemma strategies_distinct:
  "CACHE_FIRST \<noteq> NETWORK_FIRST" "CACHE_FIRST \<noteq> STALE_WHILE_REVALIDATE"
  "NETWORK_FIRST \<noteq> STALE_WHILE_REVALIDATE" "NETWORK_FIRST \<noteq> CACHE_FIRST"
  "STALE_WHILE_REVALIDATE \<noteq> CACHE_FIRST" "STALE_WHILE_REVALIDATE \<noteq> NETWORK_FIRST"
  by (simp_all add: CACHE_FIRST_def NETWORK_FIRST_def STALE_WHILE_REVALIDATE_def)

section \<open>The executors, step by step\<close>

lemma cacheFirst_hit:
  assumes "cache_match (caches s) CACHE_NAME (key_of request) = Some cached"
  shows "cacheFirst net request s =
           (Fulfilled (Some cached), s\<lparr>caches := caches_open CACHE_NAME (caches s)\<rparr>)"
  using assms by (simp add: cacheFirst_def cache_match_open)

lemma cacheFirst_miss:
  assumes "cache_match (caches s) CACHE_NAME (key_of request) = None"
  shows "cacheFirst net request s =
      (case net (key_of request) of
         Fetched x \<Rightarrow> (Fulfilled (Some x),
            if ok x
            then s\<lparr>caches := cache_put CACHE_NAME (key_of request) x
                               (caches_open CACHE_NAME (caches s)),
                   net_calls := Suc (net_calls s)\<rparr>
            else s\<lparr>caches := caches_open CACHE_NAME (caches s),
                   net_calls := Suc (net_calls s)\<rparr>)
       | NetworkError e \<Rightarrow> (Fulfilled (Some offline_plain),
            s\<lparr>caches := caches_open CACHE_NAME (caches s), net_calls := Suc (net_calls s),
              console := console s @ [''[SW] Cache first failed:'']\<rparr>)
       | Unsettled \<Rightarrow> (Pending,
            s\<lparr>caches := caches_open CACHE_NAME (caches s), net_calls := Suc (net_calls s)\<rparr>))"
  using assms
  by (simp add: cacheFirst_def cache_match_open fetch_def console_log_def
        split: fetch_outcome.splits)

lemma networkFirst_eq:
  "networkFirst net request s =
      (case net (key_of request) of
         Fetched x \<Rightarrow> (Fulfilled (Some x),
            if ok x
            then s\<lparr>caches := cache_put CACHE_NAME (key_of request) x
                               (caches_open CACHE_NAME (caches s)),
                   net_calls := Suc (net_calls s)\<rparr>
            else s\<lparr>caches := caches_open CACHE_NAME (caches s),
                   net_calls := Suc (net_calls s)\<rparr>)
       | NetworkError e \<Rightarrow>
           (Fulfilled (Some (case cache_match (caches s) CACHE_NAME (key_of request) of
                               Some cached \<Rightarrow> cached | None \<Rightarrow> offline_html)),
            s\<lparr>caches := caches_open CACHE_NAME (caches s), net_calls := Suc (net_calls s),
              console := console s @ [''[SW] Network failed, trying cache:'']\<rparr>)
       | Unsettled \<Rightarrow> (Pending,
            s\<lparr>caches := caches_open CACHE_NAME (caches s), net_calls := Suc (net_calls s)\<rparr>))"
  by (simp add: networkFirst_def cache_match_open fetch_def console_log_def Let_def
        split: fetch_outcome.splits option.splits)

lemma staleWhileRevalidate_eq:
  "staleWhileRevalidate net request s =
      (let answer = (\<lambda>fetched. case cache_match (caches s) CACHE_NAME (key_of request) of
                        Some cached \<Rightarrow> Fulfilled (Some cached) | None \<Rightarrow> fetched)
       in case net (key_of request) of
         Fetched x \<Rightarrow> (answer (Fulfilled (Some x)),
            if ok x
            then s\<lparr>caches := cache_put CACHE_NAME (key_of request) x
                               (caches_open CACHE_NAME (caches s)),
                   net_calls := Suc (net_calls s)\<rparr>
            else s\<lparr>caches := caches_open CACHE_NAME (caches s),
                   net_calls := Suc (net_calls s)\<rparr>)
       | NetworkError e \<Rightarrow>
           (answer (Fulfilled None),
            s\<lparr>caches := caches_open CACHE_NAME (caches s), net_calls := Suc (net_calls s),
              console := console s @ [''[SW] Background fetch failed:'']\<rparr>)
       | Unsettled \<Rightarrow> (answer Pending,
            s\<lparr>caches := caches_open CACHE_NAME (caches s), net_calls := Suc (net_calls s)\<rparr>))"
  by (simp add: staleWhileRevalidate_def fetchPromise_def cache_match_open fetch_def
        console_log_def Let_def split: fetch_outcome.splits option.splits)

text \<open>
  An executor that awaits its fetch is pending while the fetch has not settled; this is what
  tells waiting from not waiting.
\<close>

lemma networkFirst_waits:
  "net (key_of request) = Unsettled \<Longrightarrow> fst (networkFirst net request s) = Pending"
  by (simp add: networkFirst_eq)

lemma cacheFirst_waits:
  "cache_match (caches s) CACHE_NAME (key_of request) = None \<Longrightarrow>
   net (key_of request) = Unsettled \<Longrightarrow> fst (cacheFirst net request s) = Pending"
  by (simp add: cacheFirst_miss)

lemma staleWhileRevalidate_waits_uncached:
  "cache_match (caches s) CACHE_NAME (key_of request) = None \<Longrightarrow>
   net (key_of request) = Unsettled \<Longrightarrow> fst (staleWhileRevalidate net request s) = Pending"
  by (simp add: staleWhileRevalidate_eq)

text \<open>What the cache accepts of the sample responses.\<close>

lemma put_accepts_samples:
  "put_accepts (key_of request_app_js) response_v1"
  "put_accepts (key_of request_app_js) response_v2"
  "\<not> put_accepts (key_of request_video) response_206"
  "\<not> put_accepts (key_of request_app_js) response_206"
  "\<not> put_accepts (key_of request_post) response_201"
  "\<not> put_accepts (key_of request_app_js) response_vary_star"
  by (simp_all add: put_accepts_def vary_star_def header_values_def key_of_def sample_defs
        ascii_lower_def trim_def is_http_space_def)

section \<open>Claims about the strategy executors\<close>

text \<open>
  C1, amended. For each of the three executors, reached through \<open>handleRequest\<close>: a
  fetch is started unless cache-first finds a cached entry. When that fetch is fulfilled with
  an ok response that the platform's cache accepts for the request (method GET, status other
  than 206, no \<open>Vary: *\<close>), the current namespace afterwards holds that response under
  the request's key and every other key is as before. In every other case (no fetch, a failed
  or unsettled fetch, a response that is not ok or that the cache refuses) the entries of the
  current namespace are exactly as before.
\<close>

theorem executors_cache_iff_fetched_accepted:
  assumes "strategy \<in> {CACHE_FIRST, NETWORK_FIRST, STALE_WHILE_REVALIDATE}"
  shows "(let s' = snd (handleRequest net request strategy s);
              k = key_of request;
              fetched = (net_calls s' \<noteq> net_calls s)
          in (fetched \<longleftrightarrow>
                \<not> (strategy = CACHE_FIRST \<and> cache_match (caches s) CACHE_NAME k \<noteq> None))
           \<and> (\<forall>x. fetched \<and> net k = Fetched x \<and> ok x \<and> put_accepts k x \<longrightarrow>
                 cache_match (caches s') CACHE_NAME k = Some x
               \<and> (\<forall>k'. k' \<noteq> k \<longrightarrow>
                     cache_match (caches s') CACHE_NAME k' = cache_match (caches s) CACHE_NAME k'))
           \<and> (\<not> (fetched \<and> (\<exists>x. net k = Fetched x \<and> ok x \<and> put_accepts k x)) \<longrightarrow>
                 cache_match (caches s') CACHE_NAME = cache_match (caches s) CACHE_NAME))"
proof -
  consider (cf) "strategy = CACHE_FIRST" | (nf) "strategy = NETWORK_FIRST"
    | (swr) "strategy = STALE_WHILE_REVALIDATE"
    using assms by auto
  then show ?thesis
  proof cases
    case cf
    show ?thesis
    proof (cases "cache_match (caches s) CACHE_NAME (key_of request)")
      case None
      then show ?thesis using cf
        by (auto simp: handleRequest_def cacheFirst_miss Let_def cache_match_put_same
              cache_match_put_other caches_has_open cache_match_open cache_match_open_fun
              cache_put_refused split: fetch_outcome.splits)
    next
      case (Some cached)
      then show ?thesis using cf
        by (simp add: handleRequest_def cacheFirst_hit cache_match_open_fun)
    qed
  next
    case nf
    then show ?thesis
      by (auto simp: handleRequest_def strategies_distinct networkFirst_eq Let_def
            cache_match_put_same cache_match_put_other caches_has_open cache_match_open
            cache_match_open_fun cache_put_refused split: fetch_outcome.splits)
  next
    case swr
    then show ?thesis
      by (auto simp: handleRequest_def strategies_distinct staleWhileRevalidate_eq Let_def
            cache_match_put_same cache_match_put_other caches_has_open cache_match_open
            cache_match_open_fun cache_put_refused split: fetch_outcome.splits)
  qed
qed

theorem executors_cache_iff_fetched_accepted_witness:
  "NETWORK_FIRST \<in> {CACHE_FIRST, NETWORK_FIRST, STALE_WHILE_REVALIDATE}
   \<and> net_v2 (key_of request_app_js) = Fetched response_v2 \<and> ok response_v2
   \<and> put_accepts (key_of request_app_js) response_v2
   \<and> cache_match (caches (snd (handleRequest net_v2 request_app_js NETWORK_FIRST fresh_state)))
        CACHE_NAME (key_of request_app_js) = Some response_v2
   \<and> cache_match (caches (snd (handleRequest net_offline request_app_js NETWORK_FIRST state_with_v1)))
        CACHE_NAME = cache_match (caches state_with_v1) CACHE_NAME"
proof -
  have m: "NETWORK_FIRST \<in> {CACHE_FIRST, NETWORK_FIRST, STALE_WHILE_REVALIDATE}"
    by simp
  have n: "net_v2 (key_of request_app_js) = Fetched response_v2 \<and> ok response_v2
             \<and> put_accepts (key_of request_app_js) response_v2"
    by (simp add: net_v2_def response_v2_def ok_def put_accepts_samples(2) [unfolded response_v2_def])
  have f: "net_calls (snd (handleRequest net_v2 request_app_js NETWORK_FIRST fresh_state))
             \<noteq> net_calls fresh_state"
    using n by (simp add: handleRequest_def strategies_distinct networkFirst_eq)
  have o: "\<not> (\<exists>x. net_offline (key_of request_app_js) = Fetched x \<and> ok x
                 \<and> put_accepts (key_of request_app_js) x)"
    by (simp add: net_offline_def)
  show ?thesis
    using m n f o executors_cache_iff_fetched_accepted [OF m, of net_v2 request_app_js fresh_state]
      executors_cache_iff_fetched_accepted [OF m, of net_offline request_app_js state_with_v1]
    by (simp add: Let_def)
qed

text \<open>
  C1, as stated, fails: a video request answered with status 206 and a POST request answered
  with status 201 both go through network-first and both receive an ok response, and neither
  response is in the namespace afterwards.
\<close>

theorem ok_response_refused_by_cache:
  "getStrategyForRequest request_video = NETWORK_FIRST
   \<and> net_206 (key_of request_video) = Fetched response_206 \<and> ok response_206
   \<and> cache_match (caches (snd (handleRequest net_206 request_video NETWORK_FIRST fresh_state)))
        CACHE_NAME (key_of request_video) = None
   \<and> getStrategyForRequest request_post = NETWORK_FIRST
   \<and> net_201 (key_of request_post) = Fetched response_201 \<and> ok response_201
   \<and> cache_match (caches (snd (handleRequest net_201 request_post NETWORK_FIRST fresh_state)))
        CACHE_NAME (key_of request_post) = None"
proof -
  have c: "getStrategyForRequest request_video = NETWORK_FIRST
         \<and> getStrategyForRequest request_post = NETWORK_FIRST"
    by (simp add: getStrategyForRequest_def extension_def js_pop_def accept_includes_html_def
          image_extensions_def request_video_def request_post_def NETWORK_FIRST_def
          RESOURCE_STRATEGIES_html_def RESOURCE_STRATEGIES_styles_def
          RESOURCE_STRATEGIES_scripts_def RESOURCE_STRATEGIES_images_def CACHE_FIRST_def
          STALE_WHILE_REVALIDATE_def)
  have n: "net_206 (key_of request_video) = Fetched response_206 \<and> ok response_206
         \<and> net_201 (key_of request_post) = Fetched response_201 \<and> ok response_201"
    by (simp add: net_206_def net_201_def response_206_def response_201_def ok_def)
  have e: "cache_match (caches fresh_state) CACHE_NAME k = None" for k
    by (simp add: fresh_state_def cache_match_def)
  have v: "cache_match (caches (snd (handleRequest net_206 request_video NETWORK_FIRST fresh_state)))
        CACHE_NAME (key_of request_video) = None"
    using n put_accepts_samples(3)
    by (simp add: handleRequest_def strategies_distinct networkFirst_eq cache_put_refused
          cache_match_open e)
  have p: "cache_match (caches (snd (handleRequest net_201 request_post NETWORK_FIRST fresh_state)))
        CACHE_NAME (key_of request_post) = None"
    using n put_accepts_samples(5)
    by (simp add: handleRequest_def strategies_distinct networkFirst_eq cache_put_refused
          cache_match_open e)
  show ?thesis
    using c n v p by simp
qed

text \<open>
  C5, amended. When the current namespace holds an entry for a stale-while-revalidate request,
  the executor answers with that entry whatever the network does, also while the fetch has
  not settled (an executor that waited for it would be pending, as network-first is). The
  background fetch has been started; while it is unsettled nothing is written. When it is
  fulfilled, at once or later, with an ok response that the platform's cache accepts (status
  other than 206, no \<open>Vary: *\<close>), a later read of the namespace under the same key returns
  the new response.
\<close>

theorem staleWhileRevalidate_cached_without_waiting:
  assumes "cache_match (caches s) CACHE_NAME (key_of request) = Some cached"
  shows "fst (staleWhileRevalidate net request s) = Fulfilled (Some cached)
       \<and> net_calls (snd (staleWhileRevalidate net request s)) = Suc (net_calls s)
       \<and> (net (key_of request) = Unsettled \<longrightarrow>
            fst (staleWhileRevalidate net request s) = Fulfilled (Some cached)
          \<and> cache_match (caches (snd (staleWhileRevalidate net request s))) CACHE_NAME
              = cache_match (caches s) CACHE_NAME
          \<and> (\<forall>x. ok x \<and> put_accepts (key_of request) x \<longrightarrow>
                cache_match
                  (caches (snd (fetchPromise (Fetched x) request
                                  (snd (staleWhileRevalidate net request s)))))
                  CACHE_NAME (key_of request) = Some x))
       \<and> (\<forall>x. net (key_of request) = Fetched x \<and> ok x \<and> put_accepts (key_of request) x \<longrightarrow>
             cache_match (caches (snd (staleWhileRevalidate net request s))) CACHE_NAME
               (key_of request) = Some x)"
  using assms
  by (auto simp: staleWhileRevalidate_eq fetchPromise_def Let_def cache_match_put_same
        caches_has_open cache_match_open_fun split: fetch_outcome.splits)

theorem staleWhileRevalidate_cached_without_waiting_witness:
  "cache_match (caches state_with_v1) CACHE_NAME (key_of request_app_js) = Some response_v1
   \<and> net_pending (key_of request_app_js) = Unsettled
   \<and> map_promise (map_option body)
        (fst (staleWhileRevalidate net_pending request_app_js state_with_v1))
       = Fulfilled (Some ''v1.js'')
   \<and> ok response_v2 \<and> put_accepts (key_of request_app_js) response_v2
   \<and> map_option body
       (cache_match
          (caches (snd (fetchPromise (Fetched response_v2) request_app_js
                          (snd (staleWhileRevalidate net_pending request_app_js state_with_v1)))))
          CACHE_NAME (key_of request_app_js)) = Some ''v2.js''
   \<and> net_v2 (key_of request_app_js) = Fetched response_v2
   \<and> map_option body
       (cache_match (caches (snd (staleWhileRevalidate net_v2 request_app_js state_with_v1)))
          CACHE_NAME (key_of request_app_js)) = Some ''v2.js''"
proof -
  have h: "cache_match (caches state_with_v1) CACHE_NAME (key_of request_app_js) = Some response_v1"
    by (simp add: sample_defs cache_match_def)
  have u: "net_pending (key_of request_app_js) = Unsettled"
    by (simp add: net_pending_def)
  have n: "net_v2 (key_of request_app_js) = Fetched response_v2"
    by (simp add: net_v2_def)
  have a: "ok response_v2 \<and> put_accepts (key_of request_app_js) response_v2"
    using put_accepts_samples(2) by (simp add: response_v2_def ok_def)
  show ?thesis
    using h u n a staleWhileRevalidate_cached_without_waiting [OF h, of net_pending] staleWhileRevalidate_cached_without_waiting [OF h, of net_v2]
    by (simp add: response_v1_def response_v2_def)
qed

text \<open>
  C5, as stated, fails: the background fetch succeeds with status 200 and a header
  \<open>Vary: Accept-Encoding, *\<close>; the cache refuses the response and a later read still
  returns the old body.
\<close>

theorem staleWhileRevalidate_refused_refresh:
  "cache_match (caches state_with_v1) CACHE_NAME (key_of request_app_js) = Some response_v1
   \<and> net_vary_star (key_of request_app_js) = Fetched response_vary_star
   \<and> ok response_vary_star
   \<and> cache_match (caches (snd (staleWhileRevalidate net_vary_star request_app_js state_with_v1)))
        CACHE_NAME (key_of request_app_js) = Some response_v1
   \<and> body response_v1 = ''v1.js'' \<and> body response_vary_star = ''v3.js''"
proof -
  have h: "cache_match (caches state_with_v1) CACHE_NAME (key_of request_app_js) = Some response_v1"
    by (simp add: sample_defs cache_match_def)
  have n: "net_vary_star (key_of request_app_js) = Fetched response_vary_star
         \<and> ok response_vary_star"
    by (simp add: net_vary_star_def response_vary_star_def ok_def)
  have "cache_match (caches (snd (staleWhileRevalidate net_vary_star request_app_js state_with_v1)))
        CACHE_NAME (key_of request_app_js) = Some response_v1"
    using n h put_accepts_samples(6)
    by (simp add: staleWhileRevalidate_eq cache_put_refused cache_match_open)
  then show ?thesis
    using h n by (simp add: response_v1_def response_vary_star_def)
qed

text \<open>
  C6, amended. With no cached entry, a stale-while-revalidate request is answered with the
  live network response when the fetch succeeds. A failed fetch is caught and logged whether
  or not a cached entry exists, so the promise of the executor is never rejected with the
  network failure.
\<close>

theorem staleWhileRevalidate_uncached:
  "(\<forall>x. cache_match (caches s) CACHE_NAME (key_of request) = None
          \<and> net (key_of request) = Fetched x \<longrightarrow>
        fst (staleWhileRevalidate net request s) = Fulfilled (Some x))
   \<and> (\<forall>e. net (key_of request) = NetworkError e \<longrightarrow>
        (\<forall>m. fst (staleWhileRevalidate net request s) \<noteq> Rejected m)
      \<and> console (snd (staleWhileRevalidate net request s))
          = console s @ [''[SW] Background fetch failed:''])
   \<and> handleRequest net request STALE_WHILE_REVALIDATE s = staleWhileRevalidate net request s"
  by (auto simp: staleWhileRevalidate_eq handleRequest_def strategies_distinct
        split: option.splits)

theorem staleWhileRevalidate_uncached_witness:
  "cache_match (caches fresh_state) CACHE_NAME (key_of request_app_js) = None
   \<and> net_v2 (key_of request_app_js) = Fetched response_v2
   \<and> fst (staleWhileRevalidate net_v2 request_app_js fresh_state) = Fulfilled (Some response_v2)
   \<and> net_offline (key_of request_app_js) = NetworkError ''Failed to fetch''
   \<and> console (snd (staleWhileRevalidate net_offline request_app_js fresh_state))
       = [''[SW] Background fetch failed:'']"
proof -
  have e: "cache_match (caches fresh_state) CACHE_NAME (key_of request_app_js) = None"
    by (simp add: fresh_state_def cache_match_def)
  have n: "net_v2 (key_of request_app_js) = Fetched response_v2"
    by (simp add: net_v2_def)
  have f: "net_offline (key_of request_app_js) = NetworkError ''Failed to fetch''"
    by (simp add: net_offline_def)
  show ?thesis
    using e n f staleWhileRevalidate_uncached [of fresh_state request_app_js net_v2]
      staleWhileRevalidate_uncached [of fresh_state request_app_js net_offline]
    by (simp add: fresh_state_def)
qed

text \<open>
  C6, as stated, fails: with nothing cached and the network down, the promise of the executor
  is fulfilled with \<open>undefined\<close>; the caller does not receive the network failure.
\<close>

theorem staleWhileRevalidate_swallows_failure:
  "cache_match (caches fresh_state) CACHE_NAME (key_of request_app_js) = None
   \<and> net_offline (key_of request_app_js) = NetworkError ''Failed to fetch''
   \<and> fst (staleWhileRevalidate net_offline request_app_js fresh_state) = Fulfilled None
   \<and> fst (staleWhileRevalidate net_offline request_app_js fresh_state)
       \<noteq> Rejected ''Failed to fetch''"
  by (simp add: staleWhileRevalidate_eq net_offline_def fresh_state_def cache_match_def)

text \<open>
  C7. When the current namespace holds an entry for the request, cache-first answers with
  that entry and makes no network call: the call counter is unchanged.
\<close>

theorem cacheFirst_cached_no_network:
  assumes "cache_match (caches s) CACHE_NAME (key_of request) = Some cached"
  shows "fst (cacheFirst net request s) = Fulfilled (Some cached)
       \<and> net_calls (snd (cacheFirst net request s)) = net_calls s
       \<and> handleRequest net request CACHE_FIRST s = cacheFirst net request s"
  using assms by (simp add: cacheFirst_hit handleRequest_def)

theorem cacheFirst_cached_no_network_witness:
  "cache_match (caches state_with_v1) CACHE_NAME (key_of request_app_js) = Some response_v1
   \<and> fst (cacheFirst net_v2 request_app_js state_with_v1) = Fulfilled (Some response_v1)
   \<and> net_calls (snd (cacheFirst net_v2 request_app_js state_with_v1)) = 0"
proof -
  have h: "cache_match (caches state_with_v1) CACHE_NAME (key_of request_app_js) = Some response_v1"
    by (simp add: sample_defs cache_match_def)
  show ?thesis
    using h cacheFirst_cached_no_network [OF h, of net_v2]
    by (simp add: state_with_v1_def fresh_state_def)
qed

text \<open>
  C8. When the fetch of a network-first request fails, the executor answers with the cached
  entry if the current namespace has one for the key, and otherwise with the synthetic offline
  response, whose status is 503 and whose content type is \<open>text/html\<close>; its promise is never
  rejected and never fulfilled without a response.
\<close>

theorem networkFirst_offline_fallback:
  assumes "net (key_of request) = NetworkError e"
  shows "(\<forall>cached. cache_match (caches s) CACHE_NAME (key_of request) = Some cached \<longrightarrow>
            fst (networkFirst net request s) = Fulfilled (Some cached))
       \<and> (cache_match (caches s) CACHE_NAME (key_of request) = None \<longrightarrow>
            fst (networkFirst net request s) = Fulfilled (Some offline_html))
       \<and> (\<forall>m. fst (networkFirst net request s) \<noteq> Rejected m)
       \<and> fst (networkFirst net request s) \<noteq> Fulfilled None
       \<and> status offline_html = 503
       \<and> map_of (headers offline_html) ''Content-Type'' = Some ''text/html''
       \<and> handleRequest net request NETWORK_FIRST s = networkFirst net request s"
  using assms
  by (simp add: networkFirst_eq offline_html_def handleRequest_def strategies_distinct)

theorem networkFirst_offline_fallback_witness:
  "net_offline (key_of request_app_js) = NetworkError ''Failed to fetch''
   \<and> cache_match (caches state_with_v1) CACHE_NAME (key_of request_app_js) = Some response_v1
   \<and> fst (networkFirst net_offline request_app_js state_with_v1) = Fulfilled (Some response_v1)
   \<and> cache_match (caches fresh_state) CACHE_NAME (key_of request_app_js) = None
   \<and> fst (networkFirst net_offline request_app_js fresh_state) = Fulfilled (Some offline_html)"
proof -
  have n: "net_offline (key_of request_app_js) = NetworkError ''Failed to fetch''"
    by (simp add: net_offline_def)
  have h: "cache_match (caches state_with_v1) CACHE_NAME (key_of request_app_js) = Some response_v1"
    by (simp add: sample_defs cache_match_def)
  have e: "cache_match (caches fresh_state) CACHE_NAME (key_of request_app_js) = None"
    by (simp add: fresh_state_def cache_match_def)
  show ?thesis
    using n h e
      networkFirst_offline_fallback
        [where net = net_offline and request = request_app_js and s = state_with_v1, OF n]
      networkFirst_offline_fallback
        [where net = net_offline and request = request_app_js and s = fresh_state, OF n]
    by simp
qed

section \<open>Claims about activation\<close>

lemma console_log_fields:
  "caches (console_log msg s) = caches s" "claimed (console_log msg s) = claimed s"
  "net_calls (console_log msg s) = net_calls s" "posted (console_log msg s) = posted s"
  by (simp_all add: console_log_def)

lemma snd_caches_delete:
  "snd (caches_delete delete_error n st) =
     filter (\<lambda>(m, c). \<not> (m = n \<and> delete_error m = None)) st"
  by (auto simp: caches_delete_def split: option.splits intro!: filter_cong)

lemma delete_old_caches_Cons:
  "delete_old_caches delete_error (cacheName # rest) s =
     (if cacheName \<noteq> CACHE_NAME then
        (map_promise Some (fst (caches_delete delete_error cacheName (caches s)))
           # fst (delete_old_caches delete_error rest
                    ((console_log ''[SW] Deleting old cache:'' s)
                       \<lparr>caches := snd (caches_delete delete_error cacheName (caches s))\<rparr>)),
         snd (delete_old_caches delete_error rest
                ((console_log ''[SW] Deleting old cache:'' s)
                   \<lparr>caches := snd (caches_delete delete_error cacheName (caches s))\<rparr>)))
      else (Fulfilled None # fst (delete_old_caches delete_error rest s),
            snd (delete_old_caches delete_error rest s)))"
  by (simp add: split_def Let_def console_log_fields)

lemma delete_old_caches_caches:
  "caches (snd (delete_old_caches delete_error names s)) =
     filter (\<lambda>(m, c). \<not> (m \<in> set names \<and> m \<noteq> CACHE_NAME \<and> delete_error m = None))
       (caches s)"
proof (induction names arbitrary: s)
  case Nil
  then show ?case by simp
next
  case (Cons cacheName rest)
  show ?case
    by (auto simp: delete_old_caches_Cons Cons snd_caches_delete
          simp del: delete_old_caches.simps intro!: filter_cong)
qed

lemma delete_old_caches_claimed:
  "claimed (snd (delete_old_caches delete_error names s)) = claimed s"
proof (induction names arbitrary: s)
  case Nil
  then show ?case by simp
next
  case (Cons cacheName rest)
  show ?case
    by (simp add: delete_old_caches_Cons Cons console_log_fields
          del: delete_old_caches.simps)
qed

lemma Promise_all_delete_old_caches:
  "(\<exists>vs. Promise_all (fst (delete_old_caches delete_error names s)) = Fulfilled vs) \<longleftrightarrow>
     (\<forall>n \<in> set names. n \<noteq> CACHE_NAME \<longrightarrow> delete_error n = None)"
proof (induction names arbitrary: s)
  case Nil
  then show ?case by simp
next
  case (Cons cacheName rest)
  show ?case
  proof (cases "cacheName = CACHE_NAME")
    case True
    then show ?thesis
      using Cons [of s]
      by (auto simp: delete_old_caches_Cons simp del: delete_old_caches.simps
            split: promise.splits)
  next
    case False
    then show ?thesis
      using Cons [of "(console_log ''[SW] Deleting old cache:'' s)
                       \<lparr>caches := snd (caches_delete delete_error cacheName (caches s))\<rparr>"]
      by (auto simp: delete_old_caches_Cons caches_delete_def simp del: delete_old_caches.simps
            split: promise.splits option.splits)
  qed
qed

lemma Promise_all_delete_old_caches_settled:
  "Promise_all (fst (delete_old_caches delete_error names s)) \<noteq> Pending"
proof (induction names arbitrary: s)
  case Nil
  then show ?case by simp
next
  case (Cons cacheName rest)
  show ?case
  proof (cases "cacheName = CACHE_NAME")
    case True
    then show ?thesis
      using Cons [of s]
      by (auto simp: delete_old_caches_Cons simp del: delete_old_caches.simps
            split: promise.splits)
  next
    case False
    then show ?thesis
      using Cons [of "(console_log ''[SW] Deleting old cache:'' s)
                       \<lparr>caches := snd (caches_delete delete_error cacheName (caches s))\<rparr>"]
      by (auto simp: delete_old_caches_Cons caches_delete_def simp del: delete_old_caches.simps
            split: promise.splits option.splits)
  qed
qed

lemma activate_eq:
  "activate delete_error s =
     (let s1 = snd (delete_old_caches delete_error (caches_keys (caches s))
                      (console_log ''[SW] Activating service worker...'' s))
      in case Promise_all (fst (delete_old_caches delete_error (caches_keys (caches s))
                      (console_log ''[SW] Activating service worker...'' s))) of
           Rejected e \<Rightarrow> (Rejected e, s1)
         | Pending \<Rightarrow> (Pending, s1)
         | Fulfilled vs \<Rightarrow>
             (Fulfilled (), (console_log ''[SW] Activation complete'' s1)\<lparr>claimed := True\<rparr>))"
  by (simp add: activate_def split_def Let_def console_log_fields split: promise.splits)

lemma activate_caches:
  "caches (snd (activate delete_error s)) =
     filter (\<lambda>(m, c). m = CACHE_NAME \<or> delete_error m \<noteq> None) (caches s)"
proof -
  have "filter (\<lambda>(m, c). \<not> (m \<in> set (map fst st) \<and> m \<noteq> CACHE_NAME \<and> delete_error m = None)) st
          = filter (\<lambda>(m, c). m = CACHE_NAME \<or> delete_error m \<noteq> None) st" for st :: cache_storage
    by (rule filter_cong) force+
  then show ?thesis
    by (simp add: activate_eq Let_def delete_old_caches_caches console_log_fields caches_keys_def
          split: promise.splits)
qed

lemma activate_fulfilled:
  "fst (activate delete_error s) = Fulfilled () \<longleftrightarrow>
     (\<forall>n \<in> set (caches_keys (caches s)). n \<noteq> CACHE_NAME \<longrightarrow> delete_error n = None)"
  using Promise_all_delete_old_caches
    [of delete_error "caches_keys (caches s)" "console_log ''[SW] Activating service worker...'' s"]
    Promise_all_delete_old_caches_settled
    [of delete_error "caches_keys (caches s)" "console_log ''[SW] Activating service worker...'' s"]
  by (auto simp: activate_eq Let_def split: promise.splits)

lemma activate_claimed:
  "claimed (snd (activate delete_error s)) \<longleftrightarrow>
     claimed s \<or> (\<forall>n \<in> set (caches_keys (caches s)). n \<noteq> CACHE_NAME \<longrightarrow> delete_error n = None)"
  using Promise_all_delete_old_caches
    [of delete_error "caches_keys (caches s)" "console_log ''[SW] Activating service worker...'' s"]
    Promise_all_delete_old_caches_settled
    [of delete_error "caches_keys (caches s)" "console_log ''[SW] Activating service worker...'' s"]
  by (auto simp: activate_eq Let_def delete_old_caches_claimed console_log_fields
        split: promise.splits)

lemma map_of_filter_key:
  "P k \<Longrightarrow> map_of (filter (\<lambda>(m, c). P m) st) k = map_of st k"
  by (induction st) auto

lemma caches_has_activate:
  "caches_has (caches (snd (activate delete_error s))) n \<longleftrightarrow>
     caches_has (caches s) n \<and> (n = CACHE_NAME \<or> delete_error n \<noteq> None)"
  by (auto simp: activate_caches caches_has_def)

lemma cache_match_activate:
  "cache_match (caches (snd (activate delete_error s))) CACHE_NAME
     = cache_match (caches s) CACHE_NAME"
  using map_of_filter_key
    [of "\<lambda>m. m = CACHE_NAME \<or> delete_error m \<noteq> None" CACHE_NAME "caches s"]
  by (intro ext) (simp add: cache_match_def activate_caches)




text \<open>
  C4, amended. When every deletion of a stale namespace succeeds, the activation promise is
  fulfilled, no namespace other than the current one is left, the current namespace is
  present afterwards exactly if it was present before (activation never creates it) and its
  entries are unchanged, and the clients are claimed. Whatever the deletions do, clients that
  were not claimed before are claimed only when no other namespace is left.
\<close>

theorem activate_sweeps_old_caches:
  assumes "\<forall>n \<in> set (caches_keys (caches s)). n \<noteq> CACHE_NAME \<longrightarrow> delete_error n = None"
  shows "fst (activate delete_error s) = Fulfilled ()
       \<and> (\<forall>n. n \<noteq> CACHE_NAME \<longrightarrow> \<not> caches_has (caches (snd (activate delete_error s))) n)
       \<and> caches_has (caches (snd (activate delete_error s))) CACHE_NAME
           = caches_has (caches s) CACHE_NAME
       \<and> cache_match (caches (snd (activate delete_error s))) CACHE_NAME
           = cache_match (caches s) CACHE_NAME
       \<and> claimed (snd (activate delete_error s))
       \<and> (\<not> claimed s \<and> claimed (snd (activate delete_error' s)) \<longrightarrow>
            (\<forall>n. n \<noteq> CACHE_NAME \<longrightarrow>
               \<not> caches_has (caches (snd (activate delete_error' s))) n))"
proof -
  have keys: "caches_has (caches s) n \<longleftrightarrow> n \<in> set (caches_keys (caches s))" for n
    by (simp add: caches_has_def caches_keys_def)
  show ?thesis
    using assms
    by (auto simp: activate_fulfilled activate_claimed caches_has_activate cache_match_activate
          keys)
qed

theorem activate_sweeps_old_caches_witness:
  "caches_keys (caches state_old_caches)
     = [''ts-snippets-v0.8.0'', ''ts-snippets-v0.9.0'', CACHE_NAME]
   \<and> delete_ok ''ts-snippets-v0.8.0'' = None \<and> delete_ok ''ts-snippets-v0.9.0'' = None
   \<and> fst (activate delete_ok state_old_caches) = Fulfilled ()
   \<and> \<not> caches_has (caches (snd (activate delete_ok state_old_caches))) ''ts-snippets-v0.9.0''
   \<and> caches_has (caches (snd (activate delete_ok state_old_caches))) CACHE_NAME
   \<and> cache_match (caches (snd (activate delete_ok state_old_caches))) CACHE_NAME
        (key_of request_app_js) = Some response_v1
   \<and> \<not> claimed state_old_caches
   \<and> claimed (snd (activate delete_ok state_old_caches))"
proof -
  have h: "\<forall>n \<in> set (caches_keys (caches state_old_caches)). n \<noteq> CACHE_NAME \<longrightarrow> delete_ok n = None"
    by (simp add: delete_ok_def)
  show ?thesis
    using activate_sweeps_old_caches [OF h, of delete_ok]
    unfolding caches_has_activate cache_match_activate
    by (simp add: state_old_caches_def fresh_state_def caches_has_def cache_match_def
          caches_keys_def CACHE_NAME_def CACHE_VERSION_def)
       (simp add: delete_ok_def)
qed

text \<open>
  C4, as stated, fails: when only an older namespace exists, activation with every deletion
  succeeding removes it and leaves no namespace at all; the current one is not present.
\<close>

theorem activate_does_not_create_current:
  "caches_keys (caches state_only_old) = [''ts-snippets-v0.9.0'']
   \<and> fst (activate delete_ok state_only_old) = Fulfilled ()
   \<and> \<not> caches_has (caches (snd (activate delete_ok state_only_old))) ''ts-snippets-v0.9.0''
   \<and> \<not> caches_has (caches (snd (activate delete_ok state_only_old))) CACHE_NAME"
  unfolding activate_fulfilled caches_has_activate
  by (simp add: sample_defs caches_keys_def caches_has_def CACHE_NAME_def CACHE_VERSION_def)

section \<open>Claims about the strategy classifier\<close>

lemma js_split_not_Nil: "js_split sep s \<noteq> []"
  by (induction s) (auto split: list.splits)

lemma js_split_no_sep: "sep \<notin> set s \<Longrightarrow> js_split sep s = [s]"
  by (induction s) auto

lemma length_js_split: "length (js_split sep s) = Suc (length (filter (\<lambda>c. c = sep) s))"
  by (induction s) (auto split: list.splits)

lemma js_split_two: "sep \<in> set s \<Longrightarrow> \<exists>p q qs. js_split sep s = p # q # qs"
proof -
  assume "sep \<in> set s"
  then have "filter (\<lambda>c. c = sep) s \<noteq> []"
    by (simp add: filter_empty_conv)
  then have "2 \<le> length (js_split sep s)"
    by (cases "filter (\<lambda>c. c = sep) s") (simp_all add: length_js_split)
  then show ?thesis
    by (cases "js_split sep s"; cases "tl (js_split sep s)") auto
qed

lemma last_js_split_Cons:
  "last (js_split sep (c # cs)) =
     (if c = sep \<or> sep \<in> set cs then last (js_split sep cs) else c # cs)"
proof (cases "c = sep")
  case True
  then show ?thesis by (simp add: js_split_not_Nil)
next
  case False
  show ?thesis
  proof (cases "sep \<in> set cs")
    case True
    then obtain p q qs where "js_split sep cs = p # q # qs"
      using js_split_two by blast
    with False True show ?thesis by simp
  next
    case False
    with \<open>c \<noteq> sep\<close> show ?thesis by (simp add: js_split_no_sep)
  qed
qed

lemma last_js_split: "last (js_split sep s) = rev (takeWhile (\<lambda>c. c \<noteq> sep) (rev s))"
proof (induction s)
  case Nil
  then show ?case by simp
next
  case (Cons c cs)
  show ?case
  proof (cases "sep \<in> set cs")
    case True
    then have "takeWhile (\<lambda>c. c \<noteq> sep) (rev cs @ [c]) = takeWhile (\<lambda>c. c \<noteq> sep) (rev cs)"
      by (intro takeWhile_append1[of sep]) auto
    with True Cons show ?thesis
      by (simp only: last_js_split_Cons rev.simps) simp
  next
    case False
    then have "takeWhile (\<lambda>c. c \<noteq> sep) (rev cs @ [c]) = rev cs @ takeWhile (\<lambda>c. c \<noteq> sep) [c]"
      by (intro takeWhile_append2) auto
    with False Cons show ?thesis
      by (simp only: last_js_split_Cons rev.simps) (auto simp: js_split_no_sep)
  qed
qed

lemma extension_eq:
  "extension request = Some (rev (takeWhile (\<lambda>c. c \<noteq> CHR ''.'') (rev (pathname request))))"
  by (simp add: extension_def js_pop_def js_split_not_Nil last_js_split)

lemmas strategy_defs =
  RESOURCE_STRATEGIES_html_def RESOURCE_STRATEGIES_styles_def RESOURCE_STRATEGIES_scripts_def
  RESOURCE_STRATEGIES_images_def CACHE_FIRST_def NETWORK_FIRST_def STALE_WHILE_REVALIDATE_def

text \<open>
  C2. The classifier is a function of the request alone: it reads no state and changes none.
  Its value is always one of the three strategy identifiers, chosen by these rules in order:
  network-first when the Accept header includes \<open>text/html\<close> or the final extension of
  the pathname is \<open>html\<close>; else stale-while-revalidate for \<open>css\<close>; else
  stale-while-revalidate for \<open>js\<close>; else cache-first for \<open>jpg\<close>, \<open>jpeg\<close>,
  \<open>png\<close>, \<open>gif\<close>, \<open>webp\<close> and \<open>svg\<close>; else network-first. The final
  extension is what follows the last dot of the pathname.
\<close>

theorem getStrategyForRequest_rules:
  "getStrategyForRequest request =
     (let final_extension = rev (takeWhile (\<lambda>c. c \<noteq> CHR ''.'') (rev (pathname request)))
      in if accept_includes_html request \<or> final_extension = ''html'' then ''network-first''
         else if final_extension = ''css'' then ''stale-while-revalidate''
         else if final_extension = ''js'' then ''stale-while-revalidate''
         else if final_extension \<in> {''jpg'', ''jpeg'', ''png'', ''gif'', ''webp'', ''svg''}
           then ''cache-first''
         else ''network-first'')
   \<and> getStrategyForRequest request \<in> {''cache-first'', ''network-first'', ''stale-while-revalidate''}"
  by (simp add: getStrategyForRequest_def extension_eq image_extensions_def strategy_defs Let_def)

theorem getStrategyForRequest_rules_witness:
  "getStrategyForRequest request_logo_png = ''cache-first''
   \<and> getStrategyForRequest request_app_js = ''stale-while-revalidate''
   \<and> getStrategyForRequest request_readme = ''network-first''"
  using getStrategyForRequest_rules [of request_logo_png]
    getStrategyForRequest_rules [of request_app_js]
    getStrategyForRequest_rules [of request_readme]
  by (simp add: sample_defs accept_includes_html_def)

lemma not_upper_literals:
  assumes "c \<in> set e" "is_upper c"
  shows "e \<notin> {''html'', ''css'', ''js'', ''jpg'', ''jpeg'', ''png'', ''gif'', ''webp'', ''svg''}"
  using assms by (auto simp: is_upper_def)

text \<open>
  C10. The extension the classifier compares is the part of the pathname after its last dot;
  for a pathname without a dot it is the whole pathname. The comparison is exact, so an
  extension that contains an upper-case letter matches none of the lower-case literals and the
  request is network-first; a pathname without a dot that starts with a slash, as the pathname
  of every http(s) URL does, is network-first as well. Both hold whatever the Accept header is
  (with \<open>text/html\<close> in it the first rule gives network-first too).
\<close>

theorem extension_after_last_dot:
  "extension request
     = Some (rev (takeWhile (\<lambda>c. c \<noteq> CHR ''.'') (rev (pathname request))))
   \<and> (\<forall>before after. pathname request = before @ CHR ''.'' # after \<and> CHR ''.'' \<notin> set after \<longrightarrow>
         extension request = Some after)
   \<and> (CHR ''.'' \<notin> set (pathname request) \<longrightarrow> extension request = Some (pathname request))
   \<and> (\<forall>e c. extension request = Some e \<and> c \<in> set e \<and> is_upper c \<longrightarrow>
         getStrategyForRequest request = ''network-first'')
   \<and> (CHR ''.'' \<notin> set (pathname request) \<and> starts_with (pathname request) ''/'' \<longrightarrow>
         getStrategyForRequest request = ''network-first'')"
proof (intro conjI allI impI)
  show "extension request
     = Some (rev (takeWhile (\<lambda>c. c \<noteq> CHR ''.'') (rev (pathname request))))"
    by (rule extension_eq)
next
  fix before after
  assume "pathname request = before @ CHR ''.'' # after \<and> CHR ''.'' \<notin> set after"
  then have p: "pathname request = before @ CHR ''.'' # after" and n: "CHR ''.'' \<notin> set after"
    by simp_all
  have "takeWhile (\<lambda>c. c \<noteq> CHR ''.'') (rev after @ CHR ''.'' # rev before) = rev after"
    using n by (subst takeWhile_append2) auto
  then show "extension request = Some after"
    by (simp add: extension_eq p)
next
  assume "CHR ''.'' \<notin> set (pathname request)"
  then show "extension request = Some (pathname request)"
    by (simp add: extension_def js_split_no_sep js_pop_def)
next
  fix e c
  assume a: "extension request = Some e \<and> c \<in> set e \<and> is_upper c"
  then have "c \<in> set e" and "is_upper c"
    by simp_all
  then have "e \<notin> {''html'', ''css'', ''js'', ''jpg'', ''jpeg'', ''png'', ''gif'', ''webp'', ''svg''}"
    by (rule not_upper_literals)
  with a show "getStrategyForRequest request = ''network-first''"
    by (simp add: getStrategyForRequest_def image_extensions_def strategy_defs Let_def)
next
  assume a: "CHR ''.'' \<notin> set (pathname request) \<and> starts_with (pathname request) ''/''"
  then have e: "extension request = Some (pathname request)"
    by (simp add: extension_def js_split_no_sep js_pop_def)
  from a obtain rest where "pathname request = CHR ''/'' # rest"
    by (cases "pathname request") auto
  with e a show "getStrategyForRequest request = ''network-first''"
    by (simp add: getStrategyForRequest_def image_extensions_def strategy_defs Let_def)
qed

theorem extension_after_last_dot_witness:
  "CHR ''.'' \<notin> set (pathname request_readme) \<and> starts_with (pathname request_readme) ''/''
   \<and> extension request_readme = Some ''/docs/readme''
   \<and> getStrategyForRequest request_readme = ''network-first''
   \<and> extension request_style_upper = Some ''CSS''
   \<and> CHR ''C'' \<in> set ''CSS'' \<and> is_upper (CHR ''C'')
   \<and> getStrategyForRequest request_style_upper = ''network-first''"
proof -
  have a: "CHR ''.'' \<notin> set (pathname request_readme) \<and> starts_with (pathname request_readme) ''/''"
    by (simp add: request_readme_def)
  have b: "extension request_style_upper = Some ''CSS''"
    using extension_after_last_dot [of request_style_upper] by (simp add: request_style_upper_def)
  have c: "CHR ''C'' \<in> set ''CSS'' \<and> is_upper (CHR ''C'')"
    by (simp add: is_upper_def)
  have d: "getStrategyForRequest request_style_upper = ''network-first''"
    using extension_after_last_dot [of request_style_upper] b c by blast
  show ?thesis
    using a b c d extension_after_last_dot [of request_readme] by (simp add: request_readme_def)
qed

section \<open>Claims about the control channel\<close>

















end
